theory Spec2Isabelle
  imports Main
begin

section \<open>Data model\<close>

text \<open>
  Modelled from the spec: the type \<^verbatim>\<open>MessageTypes\<close> of the realtime payload, whose
  declaration is a global one that is not among the sources. The fields are the ones the
  specification lists for the envelope (chat identifier, text, sender, timestamp); the
  component reads \<^verbatim>\<open>chatId\<close> only. The handler is written in TypeScript, whose types are
  erased at run time, so a field that the server left out reads as \<^verbatim>\<open>undefined\<close>: the
  two fields the specification calls required are options, \<open>None\<close> standing for
  \<^verbatim>\<open>undefined\<close>.
\<close>

record MessageTypes =
  chatId :: "string option"
  body :: "string option"
  sender :: string
  timestamp :: nat

text \<open>
  Modelled from the spec: the type \<^verbatim>\<open>ChatTypes\<close> of a chat summary, whose declaration
  is likewise not among the sources. The component reads the field \<^verbatim>\<open>_id\<close> only,
  written \<open>c_id\<close> here since an Isabelle name cannot start with an underscore; the other
  fields are the preview data the specification lists (last message text, timestamp,
  unread indicator, membership list).
\<close>

record ChatTypes =
  c_id :: string
  lastText :: string
  lastTs :: nat
  unread :: bool
  members :: "string list"

text \<open>A thrown JavaScript value.\<close>

datatype error = Thrown string

text \<open>
  The two Redux actions the component creates: \<^verbatim>\<open>api.util.invalidateTags(tags)\<close> and
  \<^verbatim>\<open>appendLatestChat(chat)\<close>.
\<close>

datatype action = InvalidateTags "string list" | AppendLatestChat ChatTypes

text \<open>
  What code of this front end does to the outside: it dispatches an action to the Redux
  store, writes to the console, sends an HTTP request (the pages do so through axios) or
  shows a toast to the user.
\<close>

datatype effect =
    Dispatch action
  | ConsoleError string error
  | NetworkRequest string
  | Toast string

text \<open>
  A handler closure. Every run of the effect creates a new function object
  \<^verbatim>\<open>handleRealtimeMessage\<close>, which closes over the value of \<^verbatim>\<open>chats\<close> of that render;
  \<open>hid\<close> is the identity of the function object (what \<^verbatim>\<open>===\<close> compares).
\<close>

record listener =
  hid :: nat
  captured :: "ChatTypes list"

text \<open>
  The state the component lives in.
  \<^item> \<open>store\<close>: the slice that the reducer of \<^verbatim>\<open>appendLatestChat\<close> owns;
  \<^item> \<open>effects\<close>: the trace of outward effects, oldest first;
  \<^item> \<open>callbacks\<close>: for each socket object and event name, the array of registered
    listeners of the socket's event emitter;
  \<^item> \<open>cleanup\<close>: the cleanup closure React keeps for the effect (it closes over the
    socket and the handler of the run that returned it), \<open>None\<close> while unmounted;
  \<^item> \<open>next_hid\<close>: the supply of fresh function identities;
  \<^item> \<open>awaiting\<close>: the number of handler invocations suspended at their \<^verbatim>\<open>await\<close>.
\<close>

record 'st world =
  store :: 'st
  effects :: "effect list"
  callbacks :: "nat \<Rightarrow> string \<Rightarrow> listener list"
  cleanup :: "(nat option \<times> listener) option"
  next_hid :: nat
  awaiting :: nat

text \<open>
  A call either returns normally (\<open>Inr\<close>, with the state it leaves) or throws
  (\<open>Inl\<close>, with the thrown value and the state at the throw: what was done before the
  throw stays done).
\<close>

type_synonym 'st outcome = "(error \<times> 'st world) + 'st world"

fun world_of :: "'st outcome \<Rightarrow> 'st world" where
  "world_of (Inl (e, w)) = w"
| "world_of (Inr w) = w"

section \<open>The realtime handler\<close>

text \<open>
  \<^verbatim>\<open>dispatch(action)\<close>. The reducer of \<^verbatim>\<open>appendLatestChat\<close> lives in
  \<^verbatim>\<open>store/reducers/LatestChatSlice\<close>, outside the component: it is the parameter \<open>rd\<close>,
  any function from the slice and the payload to a new slice, which may throw. A reducer
  that throws leaves the slice as it was.
\<close>

fun dispatch :: "('st \<Rightarrow> ChatTypes \<Rightarrow> error + 'st) \<Rightarrow> action \<Rightarrow> 'st world \<Rightarrow> 'st outcome" where
  "dispatch rd (InvalidateTags tags) w =
     Inr (w\<lparr>effects := effects w @ [Dispatch (InvalidateTags tags)]\<rparr>)"
| "dispatch rd (AppendLatestChat chat) w =
     (let w1 = w\<lparr>effects := effects w @ [Dispatch (AppendLatestChat chat)]\<rparr>
      in case rd (store w) chat of
           Inl err \<Rightarrow> Inl (err, w1)
         | Inr s \<Rightarrow> Inr (w1\<lparr>store := s\<rparr>))"

text \<open>
  \<^verbatim>\<open>.map((chat) => dispatch(appendLatestChat(chat)))\<close>: one dispatch for each element, in
  order; a throw ends the loop.
\<close>

fun dispatch_each :: "('st \<Rightarrow> ChatTypes \<Rightarrow> error + 'st) \<Rightarrow> ChatTypes list \<Rightarrow> 'st world \<Rightarrow> 'st outcome" where
  "dispatch_each rd [] w = Inr w"
| "dispatch_each rd (chat # rest) w =
     (case dispatch rd (AppendLatestChat chat) w of
        Inl x \<Rightarrow> Inl x
      | Inr w1 \<Rightarrow> dispatch_each rd rest w1)"

text \<open>
  The body of the \<^verbatim>\<open>try\<close> block. The two values handed to \<^verbatim>\<open>Promise.all\<close> are an action
  object and an array, so the promise fulfils; the invocation is suspended at the
  \<^verbatim>\<open>await\<close> and nothing follows it.
\<close>

definition handleRealtimeMessage_try ::
  "('st \<Rightarrow> ChatTypes \<Rightarrow> error + 'st) \<Rightarrow> ChatTypes list \<Rightarrow> MessageTypes \<Rightarrow> 'st world \<Rightarrow> 'st outcome" where
  "handleRealtimeMessage_try rd chats msg w =
     (case dispatch rd (InvalidateTags [''Chats'']) w of
        Inl x \<Rightarrow> Inl x
      | Inr w1 \<Rightarrow>
          (case dispatch_each rd (filter (\<lambda>chat. Some (c_id chat) = chatId msg) chats) w1 of
             Inl x \<Rightarrow> Inl x
           | Inr w2 \<Rightarrow> Inr (w2\<lparr>awaiting := Suc (awaiting w2)\<rparr>)))"

text \<open>The handler: the \<^verbatim>\<open>try\<close> block and its \<^verbatim>\<open>catch\<close>.\<close>

definition handleRealtimeMessage ::
  "('st \<Rightarrow> ChatTypes \<Rightarrow> error + 'st) \<Rightarrow> ChatTypes list \<Rightarrow> MessageTypes \<Rightarrow> 'st world \<Rightarrow> 'st outcome" where
  "handleRealtimeMessage rd chats msg w =
     (case handleRealtimeMessage_try rd chats msg w of
        Inl (err, w1) \<Rightarrow>
          Inr (w1\<lparr>effects := effects w1 @ [ConsoleError ''Failed to handle real-time message:'' err]\<rparr>)
      | Inr w1 \<Rightarrow> Inr w1)"

text \<open>The continuation of an invocation suspended at the \<^verbatim>\<open>await\<close>: the function returns.\<close>

definition resume :: "'st world \<Rightarrow> 'st world" where
  "resume w = w\<lparr>awaiting := awaiting w - 1\<rparr>"

section \<open>The socket and the effect\<close>

text \<open>
  The event emitter of the socket (the socket.io client, a library): \<^verbatim>\<open>on\<close> appends the
  listener to the array of the event, \<^verbatim>\<open>off\<close> removes its first occurrence, and
  \<^verbatim>\<open>emit\<close> calls the listeners registered at that moment, in order. The promise an
  async listener returns is dropped. Only the listeners of this component are modelled.
  Every callback runs to completion before the next one starts, as JavaScript has it.
\<close>

definition socket_on :: "nat \<Rightarrow> string \<Rightarrow> listener \<Rightarrow> 'st world \<Rightarrow> 'st world" where
  "socket_on s ev h w =
     w\<lparr>callbacks := (callbacks w)(s := (callbacks w s)(ev := callbacks w s ev @ [h]))\<rparr>"

definition socket_off :: "nat \<Rightarrow> string \<Rightarrow> listener \<Rightarrow> 'st world \<Rightarrow> 'st world" where
  "socket_off s ev h w =
     w\<lparr>callbacks := (callbacks w)(s := (callbacks w s)(ev := remove1 h (callbacks w s ev)))\<rparr>"

definition socket_emit ::
  "('st \<Rightarrow> ChatTypes \<Rightarrow> error + 'st) \<Rightarrow> nat \<Rightarrow> string \<Rightarrow> MessageTypes \<Rightarrow> 'st world \<Rightarrow> 'st world" where
  "socket_emit rd s ev msg w =
     fold (\<lambda>h w1. world_of (handleRealtimeMessage rd (captured h) msg w1)) (callbacks w s ev) w"

text \<open>
  The body of the effect, for the socket \<^verbatim>\<open>getSocket()\<close> returned (\<open>None\<close> is
  \<^verbatim>\<open>undefined\<close>, where \<^verbatim>\<open>socket?.on\<close> does nothing) and the \<^verbatim>\<open>chats\<close> of the render. It
  returns the cleanup closure, which React keeps.
\<close>

definition effect_run :: "nat option \<Rightarrow> ChatTypes list \<Rightarrow> 'st world \<Rightarrow> 'st world" where
  "effect_run socket chats w =
     (let h = \<lparr>hid = next_hid w, captured = chats\<rparr>;
          w1 = w\<lparr>next_hid := Suc (next_hid w)\<rparr>;
          w2 = (case socket of None \<Rightarrow> w1 | Some s \<Rightarrow> socket_on s ''realtime'' h w1)
      in w2\<lparr>cleanup := Some (socket, h)\<rparr>)"

text \<open>The cleanup closure: \<^verbatim>\<open>socket?.off("realtime", handleRealtimeMessage)\<close>.\<close>

fun effect_cleanup :: "nat option \<times> listener \<Rightarrow> 'st world \<Rightarrow> 'st world" where
  "effect_cleanup (None, h) w = w"
| "effect_cleanup (Some s, h) w = socket_off s ''realtime'' h w"

text \<open>
  React's part. On the first render, and on every render where one of the dependencies
  \<^verbatim>\<open>[chats, socket, dispatch]\<close> has changed, React runs the cleanup of the previous run
  (when there is one) and then the effect; when the component is unmounted it runs the
  cleanup of the last run.
\<close>

definition render :: "nat option \<Rightarrow> ChatTypes list \<Rightarrow> 'st world \<Rightarrow> 'st world" where
  "render socket chats w =
     effect_run socket chats (case cleanup w of None \<Rightarrow> w | Some cl \<Rightarrow> effect_cleanup cl w)"

definition unmount :: "'st world \<Rightarrow> 'st world" where
  "unmount w =
     (case cleanup w of None \<Rightarrow> w | Some cl \<Rightarrow> (effect_cleanup cl w)\<lparr>cleanup := None\<rparr>)"

text \<open>What can happen to a mounted component, one event after the other.\<close>

datatype event =
    Render "nat option" "ChatTypes list"
  | Unmount
  | Emit nat MessageTypes
  | Resume

fun step :: "('st \<Rightarrow> ChatTypes \<Rightarrow> error + 'st) \<Rightarrow> event \<Rightarrow> 'st world \<Rightarrow> 'st world" where
  "step rd (Render socket chats) w = render socket chats w"
| "step rd Unmount w = unmount w"
| "step rd (Emit s msg) w = socket_emit rd s ''realtime'' msg w"
| "step rd Resume w = resume w"

definition run :: "('st \<Rightarrow> ChatTypes \<Rightarrow> error + 'st) \<Rightarrow> event list \<Rightarrow> 'st world \<Rightarrow> 'st world" where
  "run rd evs w = fold (step rd) evs w"

text \<open>The state before the component is mounted: no listener, nothing done yet.\<close>

definition init :: "'st \<Rightarrow> 'st world" where
  "init s = \<lparr>store = s, effects = [], callbacks = (\<lambda>_ _. []), cleanup = None,
             next_hid = 0, awaiting = 0\<rparr>"

section \<open>The chat summary store\<close>

text \<open>
  Modelled from the spec: the reducer of \<^verbatim>\<open>appendLatestChat\<close>, defined in
  \<^verbatim>\<open>store/reducers/LatestChatSlice\<close>, which is not among the sources. Its payload is
  the chat record the component passes, and nothing of the envelope. The specification
  describes the update of a summary as one that neither removes nor duplicates the record
  and that makes it the most recent one of the activity ordering, the order of the other
  records staying as it was: the record goes to the front of the list (most recent
  first), and any record of the same identifier is dropped from the rest. The
  specification has one chat summary store, which the handler both looks the chat up in
  and updates; so here the store is a list of chat records, and a handler bound to it has
  it as its \<^verbatim>\<open>chats\<close>.
\<close>

definition to_front :: "ChatTypes \<Rightarrow> ChatTypes list \<Rightarrow> ChatTypes list" where
  "to_front chat st = chat # filter (\<lambda>x. c_id x \<noteq> c_id chat) st"

definition appendLatestChat :: "ChatTypes list \<Rightarrow> ChatTypes \<Rightarrow> error + ChatTypes list" where
  "appendLatestChat st chat = Inr (to_front chat st)"

text \<open>Envelopes delivered one after the other, each to a handler bound to the current store.\<close>

fun process_all :: "MessageTypes list \<Rightarrow> ChatTypes list world \<Rightarrow> ChatTypes list world" where
  "process_all [] w = w"
| "process_all (msg # msgs) w =
     process_all msgs (world_of (handleRealtimeMessage appendLatestChat (store w) msg w))"

text \<open>Classifying the effects of a trace.\<close>

fun is_signal :: "effect \<Rightarrow> bool" where
  "is_signal (Dispatch (InvalidateTags tags)) = True"
| "is_signal e = False"

fun is_append :: "effect \<Rightarrow> bool" where
  "is_append (Dispatch (AppendLatestChat chat)) = True"
| "is_append e = False"

fun is_console :: "effect \<Rightarrow> bool" where
  "is_console (ConsoleError s e) = True"
| "is_console e = False"

fun is_request :: "effect \<Rightarrow> bool" where
  "is_request (NetworkRequest u) = True"
| "is_request e = False"

fun is_toast :: "effect \<Rightarrow> bool" where
  "is_toast (Toast s) = True"
| "is_toast e = False"

text \<open>The effects a call has added to the trace: those of \<open>w'\<close> after the ones of \<open>w\<close>.\<close>

definition emitted :: "'st world \<Rightarrow> 'st world \<Rightarrow> effect list" where
  "emitted w w' = drop (length (effects w)) (effects w')"

section \<open>The subscription invariant\<close>

text \<open>
  The listeners of the sockets are exactly what the component has bound: while a cleanup
  closure for a socket is pending, the handler of that closure, once, under
  \<^verbatim>\<open>"realtime"\<close> on that socket; otherwise nothing.
\<close>

definition lifecycle_inv :: "'st world \<Rightarrow> bool" where
  "lifecycle_inv w =
     (callbacks w =
        (case cleanup w of
           Some (Some s, h) \<Rightarrow> (\<lambda>s' ev. if s' = s \<and> ev = ''realtime'' then [h] else [])
         | _ \<Rightarrow> (\<lambda>s' ev. [])))"

section \<open>Example data\<close>

text \<open>
  The scenario of the specification: the chats \<open>A\<close> (last activity at 1) and \<open>B\<close> (at 5),
  kept most recent first, and the envelope \<^verbatim>\<open>{chatId: "A", text: "hi", ts: 10}\<close>.
\<close>

definition chat_A :: ChatTypes where
  "chat_A = \<lparr>c_id = ''A'', lastText = ''old'', lastTs = 1, unread = False, members = []\<rparr>"

definition chat_B :: ChatTypes where
  "chat_B = \<lparr>c_id = ''B'', lastText = ''bye'', lastTs = 5, unread = False, members = []\<rparr>"

definition envelope_hi :: MessageTypes where
  "envelope_hi = \<lparr>chatId = Some ''A'', body = Some ''hi'', sender = ''u1'', timestamp = 10\<rparr>"

text \<open>An envelope for a chat that is not loaded, one without chat identifier, one without body.\<close>

definition envelope_Z :: MessageTypes where
  "envelope_Z = \<lparr>chatId = Some ''Z'', body = Some ''hi'', sender = ''u1'', timestamp = 10\<rparr>"

definition envelope_no_id :: MessageTypes where
  "envelope_no_id = \<lparr>chatId = None, body = Some ''hi'', sender = ''u1'', timestamp = 10\<rparr>"

definition envelope_no_body :: MessageTypes where
  "envelope_no_body = \<lparr>chatId = Some ''A'', body = None, sender = ''u1'', timestamp = 10\<rparr>"

text \<open>A reducer that throws on every payload.\<close>

definition failing :: "unit \<Rightarrow> ChatTypes \<Rightarrow> error + unit" where
  "failing st chat = Inl (Thrown ''reducer'')"

section \<open>What one invocation of the handler does\<close>

lemma dispatch_each_frame:
  "callbacks (world_of (dispatch_each rd cs w)) = callbacks w \<and>
   cleanup (world_of (dispatch_each rd cs w)) = cleanup w \<and>
   next_hid (world_of (dispatch_each rd cs w)) = next_hid w \<and>
   awaiting (world_of (dispatch_each rd cs w)) = awaiting w"
  by (induction cs arbitrary: w) (auto simp: Let_def split: sum.splits)

text \<open>The loop dispatches a prefix of the list: all of it, or up to the payload that threw.\<close>

lemma dispatch_each_effects:
  "\<exists>k. effects (world_of (dispatch_each rd cs w)) =
        effects w @ map (\<lambda>c. Dispatch (AppendLatestChat c)) (take k cs)"
proof (induction cs arbitrary: w)
  case Nil
  then show ?case by simp
next
  case (Cons c cs)
  show ?case
  proof (cases "rd (store w) c")
    case (Inl e)
    then have "effects (world_of (dispatch_each rd (c # cs) w)) =
      effects w @ map (\<lambda>c. Dispatch (AppendLatestChat c)) (take (Suc 0) (c # cs))"
      by (simp add: Let_def)
    then show ?thesis by blast
  next
    case (Inr s)
    let ?w1 = "w\<lparr>effects := effects w @ [Dispatch (AppendLatestChat c)], store := s\<rparr>"
    from Cons.IH [of ?w1] obtain k where
      "effects (world_of (dispatch_each rd cs ?w1)) =
        effects ?w1 @ map (\<lambda>c. Dispatch (AppendLatestChat c)) (take k cs)" by blast
    with Inr have "effects (world_of (dispatch_each rd (c # cs) w)) =
      effects w @ map (\<lambda>c. Dispatch (AppendLatestChat c)) (take (Suc k) (c # cs))"
      by (simp add: Let_def)
    then show ?thesis by blast
  qed
qed

lemma handler_total:
  "handleRealtimeMessage rd chats msg w = Inr (world_of (handleRealtimeMessage rd chats msg w))"
  by (simp add: handleRealtimeMessage_def split: sum.splits prod.splits)

lemma try_effects:
  "\<exists>k. effects (world_of (handleRealtimeMessage_try rd chats msg w)) =
     effects w @ Dispatch (InvalidateTags [''Chats'']) #
       map (\<lambda>c. Dispatch (AppendLatestChat c))
         (take k (filter (\<lambda>chat. Some (c_id chat) = chatId msg) chats))"
proof -
  let ?w1 = "w\<lparr>effects := effects w @ [Dispatch (InvalidateTags [''Chats''])]\<rparr>"
  let ?cs = "filter (\<lambda>chat. Some (c_id chat) = chatId msg) chats"
  obtain k where k: "effects (world_of (dispatch_each rd ?cs ?w1)) =
        effects ?w1 @ map (\<lambda>c. Dispatch (AppendLatestChat c)) (take k ?cs)"
    using dispatch_each_effects by blast
  have "effects (world_of (handleRealtimeMessage_try rd chats msg w)) =
        effects (world_of (dispatch_each rd ?cs ?w1))"
    by (cases "dispatch_each rd ?cs ?w1") (auto simp: handleRealtimeMessage_try_def)
  with k show ?thesis by auto
qed

text \<open>
  The trace of one invocation: the staleness signal, then the store updates dispatched,
  then at most one line on the console.
\<close>

lemma handler_effects:
  "\<exists>k tl. effects (world_of (handleRealtimeMessage rd chats msg w)) =
     effects w @ Dispatch (InvalidateTags [''Chats'']) #
       map (\<lambda>c. Dispatch (AppendLatestChat c))
         (take k (filter (\<lambda>chat. Some (c_id chat) = chatId msg) chats)) @ tl \<and>
     (tl = [] \<or> (\<exists>err. tl = [ConsoleError ''Failed to handle real-time message:'' err]))"
proof -
  obtain k where k: "effects (world_of (handleRealtimeMessage_try rd chats msg w)) =
     effects w @ Dispatch (InvalidateTags [''Chats'']) #
       map (\<lambda>c. Dispatch (AppendLatestChat c))
         (take k (filter (\<lambda>chat. Some (c_id chat) = chatId msg) chats))"
    using try_effects by blast
  show ?thesis
  proof (cases "handleRealtimeMessage_try rd chats msg w")
    case (Inl x)
    then show ?thesis using k
      by (cases x) (auto simp: handleRealtimeMessage_def)
  next
    case (Inr w1)
    then show ?thesis using k
      by (auto simp: handleRealtimeMessage_def)
  qed
qed

lemma filter_appends [simp]:
  "filter is_signal (map (\<lambda>c. Dispatch (AppendLatestChat c)) cs) = []"
  "filter is_request (map (\<lambda>c. Dispatch (AppendLatestChat c)) cs) = []"
  "filter is_toast (map (\<lambda>c. Dispatch (AppendLatestChat c)) cs) = []"
  "filter is_console (map (\<lambda>c. Dispatch (AppendLatestChat c)) cs) = []"
  "filter is_append (map (\<lambda>c. Dispatch (AppendLatestChat c)) cs) =
     map (\<lambda>c. Dispatch (AppendLatestChat c)) cs"
  by (induction cs) auto

text \<open>The handler never touches the sockets, the pending cleanup or the identity supply.\<close>

lemma handler_frame:
  "callbacks (world_of (handleRealtimeMessage rd chats msg w)) = callbacks w \<and>
   cleanup (world_of (handleRealtimeMessage rd chats msg w)) = cleanup w \<and>
   next_hid (world_of (handleRealtimeMessage rd chats msg w)) = next_hid w"
proof -
  let ?w1 = "w\<lparr>effects := effects w @ [Dispatch (InvalidateTags [''Chats''])]\<rparr>"
  let ?cs = "filter (\<lambda>chat. Some (c_id chat) = chatId msg) chats"
  show ?thesis
    using dispatch_each_frame [of rd ?cs ?w1]
    by (cases "dispatch_each rd ?cs ?w1")
       (auto simp: handleRealtimeMessage_def handleRealtimeMessage_try_def)
qed

lemma no_match_result:
  "filter (\<lambda>chat. Some (c_id chat) = chatId msg) chats = [] \<Longrightarrow>
   handleRealtimeMessage rd chats msg w =
     Inr (w\<lparr>effects := effects w @ [Dispatch (InvalidateTags [''Chats''])],
            awaiting := Suc (awaiting w)\<rparr>)"
  by (simp add: handleRealtimeMessage_def handleRealtimeMessage_try_def)

lemma same_chatId_same_result:
  "chatId m1 = chatId m2 \<Longrightarrow>
   handleRealtimeMessage rd chats m1 w = handleRealtimeMessage rd chats m2 w"
  by (simp add: handleRealtimeMessage_def handleRealtimeMessage_try_def)

section \<open>Claims about the handler, for any reducer\<close>

text \<open>
  Claim C2. Whatever the envelope, the loaded chats and the reducer, one invocation of the
  handler only extends the trace; among what it adds there is exactly one staleness
  signal, the one for the tag \<^verbatim>\<open>Chats\<close>, and no network request.
\<close>

theorem one_chats_signal_no_request:
  "take (length (effects w)) (effects (world_of (handleRealtimeMessage rd chats msg w))) = effects w \<and>
   filter is_signal (emitted w (world_of (handleRealtimeMessage rd chats msg w))) =
     [Dispatch (InvalidateTags [''Chats''])] \<and>
   filter is_request (emitted w (world_of (handleRealtimeMessage rd chats msg w))) = []"
proof -
  obtain k tl where e: "effects (world_of (handleRealtimeMessage rd chats msg w)) =
     effects w @ Dispatch (InvalidateTags [''Chats'']) #
       map (\<lambda>c. Dispatch (AppendLatestChat c))
         (take k (filter (\<lambda>chat. Some (c_id chat) = chatId msg) chats)) @ tl"
   and tl: "tl = [] \<or> (\<exists>err. tl = [ConsoleError ''Failed to handle real-time message:'' err])"
    using handler_effects by blast
  from tl show ?thesis
    by (auto simp: e emitted_def)
qed

text \<open>
  Claim C3. When no loaded chat has the identifier of the envelope, the handler returns
  normally and leaves everything as it was but for the one staleness signal added to the
  trace (and the invocation now waiting at its \<^verbatim>\<open>await\<close>): the store is unchanged, no
  store update is dispatched and nothing is written to the console.
\<close>

theorem unknown_chat_store_unchanged:
  "chatId msg \<notin> Some ` c_id ` set chats \<Longrightarrow>
   handleRealtimeMessage rd chats msg w =
     Inr (w\<lparr>effects := effects w @ [Dispatch (InvalidateTags [''Chats''])],
            awaiting := Suc (awaiting w)\<rparr>)"
proof -
  assume a: "chatId msg \<notin> Some ` c_id ` set chats"
  have "\<forall>c\<in>set chats. Some (c_id c) \<noteq> chatId msg"
    using a by force
  then have "filter (\<lambda>chat. Some (c_id chat) = chatId msg) chats = []"
    by (simp add: filter_empty_conv)
  then show ?thesis by (rule no_match_result)
qed

text \<open>Claim C3, at the envelope for the chat \<open>Z\<close> of the specification's second scenario.\<close>

theorem unknown_chat_store_unchanged_witness:
  "chatId envelope_Z \<notin> Some ` c_id ` set [chat_B, chat_A] \<and>
   handleRealtimeMessage appendLatestChat [chat_B, chat_A] envelope_Z (init [chat_B, chat_A]) =
     Inr ((init [chat_B, chat_A])\<lparr>effects := [Dispatch (InvalidateTags [''Chats''])], awaiting := 1\<rparr>)"
proof -
  have h: "chatId envelope_Z \<notin> Some ` c_id ` set [chat_B, chat_A]"
    by (simp add: envelope_Z_def chat_A_def chat_B_def)
  show ?thesis
    using h unknown_chat_store_unchanged [OF h, of appendLatestChat "init [chat_B, chat_A]"]
    by (simp add: init_def)
qed

text \<open>
  Claim C9. The handler always returns normally. When something thrown leaves the
  \<^verbatim>\<open>try\<close> block, the handler returns with one line added to the console, and it never
  shows anything to the user.
\<close>

theorem handler_never_throws:
  "(\<exists>w'. handleRealtimeMessage rd chats msg w = Inr w') \<and>
   (\<forall>err w1. handleRealtimeMessage_try rd chats msg w = Inl (err, w1) \<longrightarrow>
      handleRealtimeMessage rd chats msg w =
        Inr (w1\<lparr>effects := effects w1 @ [ConsoleError ''Failed to handle real-time message:'' err]\<rparr>)) \<and>
   filter is_toast (emitted w (world_of (handleRealtimeMessage rd chats msg w))) = []"
proof -
  obtain k tl where e: "effects (world_of (handleRealtimeMessage rd chats msg w)) =
     effects w @ Dispatch (InvalidateTags [''Chats'']) #
       map (\<lambda>c. Dispatch (AppendLatestChat c))
         (take k (filter (\<lambda>chat. Some (c_id chat) = chatId msg) chats)) @ tl"
   and tl: "tl = [] \<or> (\<exists>err. tl = [ConsoleError ''Failed to handle real-time message:'' err])"
    using handler_effects by blast
  have 1: "\<exists>w'. handleRealtimeMessage rd chats msg w = Inr w'"
    using handler_total by blast
  have 2: "\<forall>err w1. handleRealtimeMessage_try rd chats msg w = Inl (err, w1) \<longrightarrow>
      handleRealtimeMessage rd chats msg w =
        Inr (w1\<lparr>effects := effects w1 @ [ConsoleError ''Failed to handle real-time message:'' err]\<rparr>)"
    by (simp add: handleRealtimeMessage_def)
  have 3: "filter is_toast (emitted w (world_of (handleRealtimeMessage rd chats msg w))) = []"
    using tl by (auto simp: e emitted_def)
  from 1 2 3 show ?thesis by blast
qed

text \<open>Claim C9, at a reducer that throws on the update for chat \<open>A\<close>.\<close>

theorem handler_never_throws_witness:
  "handleRealtimeMessage_try failing [chat_B, chat_A] envelope_hi (init ()) =
     Inl (Thrown ''reducer'',
          (init ())\<lparr>effects := [Dispatch (InvalidateTags [''Chats'']), Dispatch (AppendLatestChat chat_A)]\<rparr>) \<and>
   handleRealtimeMessage failing [chat_B, chat_A] envelope_hi (init ()) =
     Inr ((init ())\<lparr>effects := [Dispatch (InvalidateTags [''Chats'']), Dispatch (AppendLatestChat chat_A),
            ConsoleError ''Failed to handle real-time message:'' (Thrown ''reducer'')]\<rparr>)"
proof -
  have t: "handleRealtimeMessage_try failing [chat_B, chat_A] envelope_hi (init ()) =
     Inl (Thrown ''reducer'',
          (init ())\<lparr>effects := [Dispatch (InvalidateTags [''Chats'']), Dispatch (AppendLatestChat chat_A)]\<rparr>)"
    by (simp add: handleRealtimeMessage_try_def failing_def chat_A_def chat_B_def envelope_hi_def init_def)
  with handler_never_throws [of failing "[chat_B, chat_A]" envelope_hi "init ()"] show ?thesis
    by simp
qed

text \<open>
  Claim C10. Two envelopes with the same chat identifier give the same result, whatever
  their body, sender and timestamp; and every store update the handler dispatches carries
  one of the loaded chat records, as it was loaded.
\<close>

theorem handler_reads_chatId_only:
  "chatId m1 = chatId m2 \<Longrightarrow>
   handleRealtimeMessage rd chats m1 w = handleRealtimeMessage rd chats m2 w \<and>
   set (filter is_append (emitted w (world_of (handleRealtimeMessage rd chats m1 w))))
     \<subseteq> (\<lambda>c. Dispatch (AppendLatestChat c)) ` set chats"
proof -
  assume a: "chatId m1 = chatId m2"
  obtain k tl where e: "effects (world_of (handleRealtimeMessage rd chats m1 w)) =
     effects w @ Dispatch (InvalidateTags [''Chats'']) #
       map (\<lambda>c. Dispatch (AppendLatestChat c))
         (take k (filter (\<lambda>chat. Some (c_id chat) = chatId m1) chats)) @ tl"
   and tl: "tl = [] \<or> (\<exists>err. tl = [ConsoleError ''Failed to handle real-time message:'' err])"
    using handler_effects by blast
  have 1: "handleRealtimeMessage rd chats m1 w = handleRealtimeMessage rd chats m2 w"
    using a by (rule same_chatId_same_result)
  have 2: "set (filter is_append (emitted w (world_of (handleRealtimeMessage rd chats m1 w))))
     \<subseteq> (\<lambda>c. Dispatch (AppendLatestChat c)) ` set chats"
    using tl by (auto simp: e emitted_def dest: in_set_takeD)
  from 1 2 show ?thesis by blast
qed

text \<open>Claim C10, at two envelopes for chat \<open>A\<close> that differ in body, sender and timestamp.\<close>

theorem handler_reads_chatId_only_witness:
  "chatId envelope_hi = chatId (envelope_hi\<lparr>body := Some ''other'', sender := ''u2'', timestamp := 99\<rparr>) \<and>
   handleRealtimeMessage appendLatestChat [chat_B, chat_A] envelope_hi (init [chat_B, chat_A]) =
   handleRealtimeMessage appendLatestChat [chat_B, chat_A]
     (envelope_hi\<lparr>body := Some ''other'', sender := ''u2'', timestamp := 99\<rparr>) (init [chat_B, chat_A])"
proof -
  have h: "chatId envelope_hi =
      chatId (envelope_hi\<lparr>body := Some ''other'', sender := ''u2'', timestamp := 99\<rparr>)"
    by simp
  show ?thesis
    using h handler_reads_chatId_only [OF h, of appendLatestChat "[chat_B, chat_A]" "init [chat_B, chat_A]"]
    by simp
qed

section \<open>The subscription over the life of the component\<close>

lemma inv_init: "lifecycle_inv (init s)"
  by (simp add: lifecycle_inv_def init_def)

lemma cleanup_clears_pair:
  "lifecycle_inv w \<Longrightarrow> cleanup w = Some (so, h) \<Longrightarrow>
   callbacks (effect_cleanup (so, h) w) = (\<lambda>s ev. [])"
  by (cases so) (auto simp: lifecycle_inv_def socket_off_def fun_eq_iff)

lemma cleanup_clears:
  "lifecycle_inv w \<Longrightarrow> cleanup w = Some cl \<Longrightarrow> callbacks (effect_cleanup cl w) = (\<lambda>s ev. [])"
  by (cases cl) (simp add: cleanup_clears_pair)

lemma cleanup_twice_pair:
  "lifecycle_inv w \<Longrightarrow> cleanup w = Some (so, h) \<Longrightarrow>
   effect_cleanup (so, h) (effect_cleanup (so, h) w) = effect_cleanup (so, h) w"
  by (cases so) (auto simp: lifecycle_inv_def socket_off_def fun_eq_iff)

lemma inv_unmount: "lifecycle_inv w \<Longrightarrow> lifecycle_inv (unmount w)"
  using cleanup_clears [of w]
  by (auto simp: unmount_def lifecycle_inv_def split: option.splits)

lemma unmount_callbacks: "lifecycle_inv w \<Longrightarrow> callbacks (unmount w) = (\<lambda>s ev. [])"
  using cleanup_clears [of w]
  by (auto simp: unmount_def lifecycle_inv_def split: option.splits)

lemma effect_run_inv:
  "callbacks w = (\<lambda>s ev. []) \<Longrightarrow> lifecycle_inv (effect_run socket chats w)"
  by (cases socket) (auto simp: effect_run_def lifecycle_inv_def socket_on_def Let_def fun_eq_iff)

text \<open>A render that runs the effect first runs the pending cleanup, which unbinds the old handler.\<close>

lemma inv_render: "lifecycle_inv w \<Longrightarrow> lifecycle_inv (render socket chats w)"
proof -
  assume a: "lifecycle_inv w"
  have "callbacks (case cleanup w of None \<Rightarrow> w | Some cl \<Rightarrow> effect_cleanup cl w) = (\<lambda>s ev. [])"
    using a cleanup_clears [of w]
    by (auto simp: lifecycle_inv_def split: option.splits)
  then show ?thesis
    unfolding render_def by (rule effect_run_inv)
qed

lemma emit_frame:
  "callbacks (fold (\<lambda>h w1. world_of (handleRealtimeMessage rd (captured h) msg w1)) hs w) = callbacks w \<and>
   cleanup (fold (\<lambda>h w1. world_of (handleRealtimeMessage rd (captured h) msg w1)) hs w) = cleanup w"
  by (induction hs arbitrary: w) (simp_all add: handler_frame)

lemma inv_emit: "lifecycle_inv w \<Longrightarrow> lifecycle_inv (socket_emit rd s ev msg w)"
  by (simp add: lifecycle_inv_def socket_emit_def emit_frame)

lemma inv_resume: "lifecycle_inv w \<Longrightarrow> lifecycle_inv (resume w)"
  by (simp add: lifecycle_inv_def resume_def)

lemma inv_step: "lifecycle_inv w \<Longrightarrow> lifecycle_inv (step rd e w)"
  by (cases e) (simp_all add: inv_render inv_unmount inv_emit inv_resume)

lemma inv_run: "lifecycle_inv w \<Longrightarrow> lifecycle_inv (run rd evs w)"
  unfolding run_def by (induction evs arbitrary: w) (simp_all add: inv_step)

lemma inv_at_most_one: "lifecycle_inv w \<Longrightarrow> length (callbacks w s ev) \<le> 1"
  by (auto simp: lifecycle_inv_def split: option.splits)

lemma emit_unbound: "callbacks w = (\<lambda>s ev. []) \<Longrightarrow> socket_emit rd s ev msg w = w"
  by (simp add: socket_emit_def)

lemma run_emits_unbound:
  "callbacks w = (\<lambda>s ev. []) \<Longrightarrow> run rd (map (\<lambda>(s, msg). Emit s msg) queue) w = w"
  unfolding run_def by (induction queue) (auto simp: emit_unbound)

text \<open>
  Claim C4. The effect body itself only binds; it is React that runs the cleanup of the
  previous run before the effect runs again. So when the effect has run twice (first
  render, then a render with changed dependencies) and the component is unmounted, no
  socket has a listener left under any event name; and whatever happens to the component
  (renders, unmounts, envelopes, resumed invocations), no socket ever has more than one
  listener under \<^verbatim>\<open>"realtime"\<close>.
\<close>

theorem resubscription_no_duplicate:
  "lifecycle_inv w \<Longrightarrow>
   callbacks (unmount (render s2 c2 (render s1 c1 w))) = (\<lambda>s ev. []) \<and>
   (\<forall>evs s. length (callbacks (run rd evs w) s ''realtime'') \<le> 1)"
proof -
  assume a: "lifecycle_inv w"
  have 1: "callbacks (unmount (render s2 c2 (render s1 c1 w))) = (\<lambda>s ev. [])"
    using a by (simp add: unmount_callbacks inv_render)
  have 2: "\<forall>evs s. length (callbacks (run rd evs w) s ''realtime'') \<le> 1"
    using inv_at_most_one [OF inv_run [OF a]] by blast
  from 1 2 show ?thesis by blast
qed

text \<open>
  Claim C4, from the state before the first render: two renders on socket 0 with
  different chats, then the unmount.
\<close>

theorem resubscription_no_duplicate_witness:
  "lifecycle_inv (init ()) \<and>
   callbacks (unmount (render (Some 0) [chat_A] (render (Some 0) [chat_B, chat_A] (init ()))))
     = (\<lambda>s ev. [])"
proof -
  have h: "lifecycle_inv (init ())"
    by (simp add: lifecycle_inv_def init_def)
  show ?thesis
    using h resubscription_no_duplicate [OF h, of "Some 0" "[chat_A]" "Some 0" "[chat_B, chat_A]" failing]
    by simp
qed

text \<open>
  Claim C7. Once the component is unmounted, the envelopes that the sockets still emit,
  however many were waiting, change nothing: no handler is invoked. Running the unmount
  again, or the cleanup closure again, changes nothing more. An invocation that was
  suspended at its \<^verbatim>\<open>await\<close> when the cleanup ran only returns: resuming it before or
  after the unmount gives the same state, and resuming touches neither the store, nor the
  trace, nor the listeners.
\<close>

theorem unbind_effective_idempotent:
  "lifecycle_inv w \<Longrightarrow>
   run rd (map (\<lambda>(s, msg). Emit s msg) queue) (unmount w) = unmount w \<and>
   unmount (unmount w) = unmount w \<and>
   (\<forall>cl. cleanup w = Some cl \<longrightarrow> effect_cleanup cl (effect_cleanup cl w) = effect_cleanup cl w) \<and>
   unmount (resume w) = resume (unmount w) \<and>
   store (resume w) = store w \<and> effects (resume w) = effects w \<and> callbacks (resume w) = callbacks w"
proof -
  assume a: "lifecycle_inv w"
  have 1: "run rd (map (\<lambda>(s, msg). Emit s msg) queue) (unmount w) = unmount w"
    using a by (simp add: run_emits_unbound unmount_callbacks)
  have 2: "unmount (unmount w) = unmount w"
    by (simp add: unmount_def split: option.splits)
  have 3: "\<forall>cl. cleanup w = Some cl \<longrightarrow> effect_cleanup cl (effect_cleanup cl w) = effect_cleanup cl w"
  proof (intro allI impI)
    fix cl assume c: "cleanup w = Some cl"
    show "effect_cleanup cl (effect_cleanup cl w) = effect_cleanup cl w"
      using a c by (cases cl) (simp add: cleanup_twice_pair)
  qed
  have 4: "unmount (resume w) = resume (unmount w)"
  proof (cases "cleanup w")
    case None
    then show ?thesis by (simp add: unmount_def resume_def)
  next
    case (Some cl)
    obtain so h where cl: "cl = (so, h)" by (cases cl)
    show ?thesis
      using Some cl by (cases so) (simp_all add: unmount_def resume_def socket_off_def)
  qed
  have 5: "store (resume w) = store w \<and> effects (resume w) = effects w \<and> callbacks (resume w) = callbacks w"
    by (simp add: resume_def)
  from 1 2 3 4 5 show ?thesis by blast
qed

text \<open>
  Claim C7, at a component bound on socket 0 with one invocation in flight, and two
  envelopes for chat \<open>A\<close> waiting on that socket when it is unmounted.
\<close>

theorem unbind_effective_idempotent_witness:
  "lifecycle_inv (socket_emit appendLatestChat 0 ''realtime'' envelope_hi
       (render (Some 0) [chat_B, chat_A] (init [chat_B, chat_A]))) \<and>
   cleanup (socket_emit appendLatestChat 0 ''realtime'' envelope_hi
       (render (Some 0) [chat_B, chat_A] (init [chat_B, chat_A]))) =
     Some (Some 0, \<lparr>hid = 0, captured = [chat_B, chat_A]\<rparr>) \<and>
   awaiting (socket_emit appendLatestChat 0 ''realtime'' envelope_hi
       (render (Some 0) [chat_B, chat_A] (init [chat_B, chat_A]))) = 1 \<and>
   run appendLatestChat [Emit 0 envelope_hi, Emit 0 envelope_hi]
     (unmount (socket_emit appendLatestChat 0 ''realtime'' envelope_hi
       (render (Some 0) [chat_B, chat_A] (init [chat_B, chat_A])))) =
     unmount (socket_emit appendLatestChat 0 ''realtime'' envelope_hi
       (render (Some 0) [chat_B, chat_A] (init [chat_B, chat_A]))) \<and>
   effect_cleanup (Some 0, \<lparr>hid = 0, captured = [chat_B, chat_A]\<rparr>)
     (effect_cleanup (Some 0, \<lparr>hid = 0, captured = [chat_B, chat_A]\<rparr>)
       (socket_emit appendLatestChat 0 ''realtime'' envelope_hi
         (render (Some 0) [chat_B, chat_A] (init [chat_B, chat_A])))) =
   effect_cleanup (Some 0, \<lparr>hid = 0, captured = [chat_B, chat_A]\<rparr>)
     (socket_emit appendLatestChat 0 ''realtime'' envelope_hi
       (render (Some 0) [chat_B, chat_A] (init [chat_B, chat_A])))"
proof -
  let ?w = "socket_emit appendLatestChat 0 ''realtime'' envelope_hi
       (render (Some 0) [chat_B, chat_A] (init [chat_B, chat_A]))"
  have r: "callbacks (render (Some 0) [chat_B, chat_A] (init [chat_B, chat_A])) 0 ''realtime''
      = [\<lparr>hid = 0, captured = [chat_B, chat_A]\<rparr>]"
    by (simp add: render_def effect_run_def socket_on_def init_def Let_def)
  have i: "lifecycle_inv (render (Some 0) [chat_B, chat_A] (init [chat_B, chat_A]))"
    by (simp add: lifecycle_inv_def render_def effect_run_def socket_on_def init_def Let_def fun_eq_iff)
  have h: "lifecycle_inv ?w"
    using i by (rule inv_emit)
  have c: "cleanup ?w = Some (Some 0, \<lparr>hid = 0, captured = [chat_B, chat_A]\<rparr>)"
    by (simp add: socket_emit_def emit_frame)
       (simp add: render_def effect_run_def socket_on_def init_def Let_def)
  have n: "awaiting ?w = 1"
    by (simp add: socket_emit_def r)
       (simp add: handleRealtimeMessage_def handleRealtimeMessage_try_def appendLatestChat_def to_front_def
          render_def effect_run_def socket_on_def init_def Let_def chat_A_def chat_B_def envelope_hi_def)
  show ?thesis
    using h c n
      unbind_effective_idempotent [OF h, of appendLatestChat "[(0, envelope_hi), (0, envelope_hi)]"]
    by simp
qed

section \<open>Envelopes with a field missing\<close>

text \<open>
  Claim C6, as stated, fails. The handler has no check of the envelope. Here the envelope
  for the loaded chat \<open>A\<close> has no body: the handler does not reject it, it dispatches the
  store update for \<open>A\<close> as for any other envelope, and it writes nothing to the console.
\<close>

theorem malformed_envelope_counterexample:
  "body envelope_no_body = None \<and>
   filter is_append (effects (world_of
      (handleRealtimeMessage appendLatestChat [chat_B, chat_A] envelope_no_body (init [chat_B, chat_A]))))
     = [Dispatch (AppendLatestChat chat_A)] \<and>
   filter is_console (effects (world_of
      (handleRealtimeMessage appendLatestChat [chat_B, chat_A] envelope_no_body (init [chat_B, chat_A]))))
     = []"
  by (simp add: handleRealtimeMessage_def handleRealtimeMessage_try_def appendLatestChat_def to_front_def
      chat_A_def chat_B_def envelope_no_body_def init_def Let_def)

text \<open>
  Claim C6, amended. An envelope without chat identifier matches no loaded chat: the
  handler emits the staleness signal, dispatches no store update, writes nothing to the
  console and returns normally. An envelope without body is handled exactly as the same
  envelope with a body. In every case the handler leaves the listeners of the sockets and
  the pending cleanup as they were, so the subscription stays active.
\<close>

theorem malformed_envelope_not_rejected:
  "(chatId msg = None \<longrightarrow>
      handleRealtimeMessage rd chats msg w =
        Inr (w\<lparr>effects := effects w @ [Dispatch (InvalidateTags [''Chats''])],
               awaiting := Suc (awaiting w)\<rparr>)) \<and>
   handleRealtimeMessage rd chats (msg\<lparr>body := None\<rparr>) w = handleRealtimeMessage rd chats msg w \<and>
   callbacks (world_of (handleRealtimeMessage rd chats msg w)) = callbacks w \<and>
   cleanup (world_of (handleRealtimeMessage rd chats msg w)) = cleanup w"
proof -
  have 1: "chatId msg = None \<longrightarrow>
      handleRealtimeMessage rd chats msg w =
        Inr (w\<lparr>effects := effects w @ [Dispatch (InvalidateTags [''Chats''])],
               awaiting := Suc (awaiting w)\<rparr>)"
  proof
    assume "chatId msg = None"
    then have "filter (\<lambda>chat. Some (c_id chat) = chatId msg) chats = []"
      by (simp add: filter_empty_conv)
    then show "handleRealtimeMessage rd chats msg w =
        Inr (w\<lparr>effects := effects w @ [Dispatch (InvalidateTags [''Chats''])],
               awaiting := Suc (awaiting w)\<rparr>)"
      by (rule no_match_result)
  qed
  have 2: "handleRealtimeMessage rd chats (msg\<lparr>body := None\<rparr>) w = handleRealtimeMessage rd chats msg w"
    by (rule same_chatId_same_result) simp
  from 1 2 handler_frame [of rd chats msg w] show ?thesis by blast
qed

text \<open>Claim C6, amended, at the envelope without chat identifier, on a bound component.\<close>

theorem malformed_envelope_not_rejected_witness:
  "chatId envelope_no_id = None \<and>
   handleRealtimeMessage appendLatestChat [chat_B, chat_A] envelope_no_id
       (render (Some 0) [chat_B, chat_A] (init [chat_B, chat_A])) =
     Inr ((render (Some 0) [chat_B, chat_A] (init [chat_B, chat_A]))
            \<lparr>effects := [Dispatch (InvalidateTags [''Chats''])], awaiting := 1\<rparr>)"
proof -
  have h: "chatId envelope_no_id = None"
    by (simp add: envelope_no_id_def)
  show ?thesis
    using h malformed_envelope_not_rejected [of envelope_no_id appendLatestChat "[chat_B, chat_A]"
        "render (Some 0) [chat_B, chat_A] (init [chat_B, chat_A])"]
    by (simp add: render_def effect_run_def socket_on_def init_def Let_def)
qed

section \<open>The handler on the chat summary store\<close>

lemma dispatch_each_append:
  "dispatch_each appendLatestChat cs w =
     Inr (w\<lparr>store := fold to_front cs (store w),
            effects := effects w @ map (\<lambda>c. Dispatch (AppendLatestChat c)) cs\<rparr>)"
  by (induction cs arbitrary: w) (simp_all add: appendLatestChat_def to_front_def Let_def)

text \<open>With the reducer of the store the handler never takes its \<^verbatim>\<open>catch\<close> branch.\<close>

lemma handler_append:
  "handleRealtimeMessage appendLatestChat chats msg w =
     Inr (w\<lparr>store := fold to_front (filter (\<lambda>chat. Some (c_id chat) = chatId msg) chats) (store w),
            effects := effects w @ Dispatch (InvalidateTags [''Chats'']) #
               map (\<lambda>c. Dispatch (AppendLatestChat c))
                 (filter (\<lambda>chat. Some (c_id chat) = chatId msg) chats),
            awaiting := Suc (awaiting w)\<rparr>)"
  by (simp add: handleRealtimeMessage_def handleRealtimeMessage_try_def dispatch_each_append)

lemma fold_to_front_same:
  "cs \<noteq> [] \<Longrightarrow> \<forall>c\<in>set cs. c_id c = C \<Longrightarrow>
   fold to_front cs st = last cs # filter (\<lambda>x. c_id x \<noteq> C) st"
proof (induction cs arbitrary: st)
  case Nil
  then show ?case by simp
next
  case (Cons c cs)
  show ?case
  proof (cases "cs = []")
    case True
    with Cons.prems show ?thesis by (simp add: to_front_def)
  next
    case False
    have "fold to_front (c # cs) st = fold to_front cs (to_front c st)" by simp
    also have "\<dots> = last cs # filter (\<lambda>x. c_id x \<noteq> C) (to_front c st)"
      using Cons.IH [OF False] Cons.prems by simp
    also have "filter (\<lambda>x. c_id x \<noteq> C) (to_front c st) = filter (\<lambda>x. c_id x \<noteq> C) st"
      using Cons.prems by (simp add: to_front_def)
    finally show ?thesis using False by simp
  qed
qed

lemma matches_of:
  "c \<in> set chats \<Longrightarrow> chatId msg = Some (c_id c) \<Longrightarrow>
   filter (\<lambda>chat. Some (c_id chat) = chatId msg) chats \<noteq> [] \<and>
   (\<forall>x\<in>set (filter (\<lambda>chat. Some (c_id chat) = chatId msg) chats). c_id x = c_id c)"
  by (auto simp: filter_empty_conv)

lemma distinct_filter_id:
  "distinct (map c_id st) \<Longrightarrow> c \<in> set st \<Longrightarrow> filter (\<lambda>x. c_id x = c_id c) st = [c]"
proof (induction st)
  case Nil
  then show ?case by simp
next
  case (Cons a st)
  show ?case
  proof (cases "a = c")
    case True
    have "\<forall>x\<in>set st. c_id x \<noteq> c_id c"
      using Cons.prems(1) True by (auto simp: image_iff)
    then have "filter (\<lambda>x. c_id x = c_id c) st = []"
      by (simp add: filter_empty_conv)
    with True show ?thesis by simp
  next
    case False
    with Cons.prems have "c \<in> set st" and "c_id a \<noteq> c_id c"
      by force+
    with Cons show ?thesis by simp
  qed
qed

lemma distinct_remove_id:
  "distinct (map c_id st) \<Longrightarrow> c \<in> set st \<Longrightarrow> filter (\<lambda>x. c_id x \<noteq> c_id c) st = remove1 c st"
proof (induction st)
  case Nil
  then show ?case by simp
next
  case (Cons a st)
  show ?case
  proof (cases "a = c")
    case True
    have "\<forall>x\<in>set st. c_id x \<noteq> c_id c"
      using Cons.prems(1) True by (auto simp: image_iff)
    then have "filter (\<lambda>x. c_id x \<noteq> c_id c) st = st"
      by (simp add: filter_id_conv)
    with True show ?thesis by simp
  next
    case False
    with Cons.prems have "c \<in> set st" and "c_id a \<noteq> c_id c"
      by force+
    with Cons False show ?thesis by simp
  qed
qed

lemma matches_distinct:
  assumes d: "distinct (map c_id st)" and c: "c \<in> set st" and m: "chatId msg = Some (c_id c)"
  shows "filter (\<lambda>chat. Some (c_id chat) = chatId msg) st = [c]"
  using distinct_filter_id [OF d c] by (simp add: m)

lemma distinct_to_front:
  "distinct (map c_id st) \<Longrightarrow> distinct (map c_id (to_front c st))"
  by (auto simp: to_front_def distinct_map_filter)

lemma ids_to_front:
  "c_id c \<in> c_id ` set st \<Longrightarrow> c_id ` set (to_front c st) = c_id ` set st"
  by (auto simp: to_front_def)

lemma fold_to_front_inv:
  "distinct (map c_id st) \<Longrightarrow> c_id ` set cs \<subseteq> c_id ` set st \<Longrightarrow>
   distinct (map c_id (fold to_front cs st)) \<and> c_id ` set (fold to_front cs st) = c_id ` set st"
proof (induction cs arbitrary: st)
  case Nil
  then show ?case by simp
next
  case (Cons c cs)
  from Cons.prems have in_st: "c_id c \<in> c_id ` set st" by simp
  have d: "distinct (map c_id (to_front c st))"
    using Cons.prems(1) by (rule distinct_to_front)
  have i: "c_id ` set (to_front c st) = c_id ` set st"
    using in_st by (rule ids_to_front)
  have "c_id ` set cs \<subseteq> c_id ` set (to_front c st)"
    using Cons.prems(2) i by simp
  from Cons.IH [OF d this] i show ?case by simp
qed

text \<open>One invocation keeps the identifiers of the store, each of them once.\<close>

lemma handler_store_inv:
  assumes d: "distinct (map c_id (store w))"
  shows "distinct (map c_id (store (world_of (handleRealtimeMessage appendLatestChat (store w) msg w)))) \<and>
         c_id ` set (store (world_of (handleRealtimeMessage appendLatestChat (store w) msg w)))
           = c_id ` set (store w)"
proof -
  have "c_id ` set (filter (\<lambda>chat. Some (c_id chat) = chatId msg) (store w)) \<subseteq> c_id ` set (store w)"
    by auto
  from fold_to_front_inv [OF d this] show ?thesis
    by (simp add: handler_append)
qed

lemma process_all_inv:
  "distinct (map c_id (store w)) \<Longrightarrow>
   distinct (map c_id (store (process_all msgs w))) \<and>
   c_id ` set (store (process_all msgs w)) = c_id ` set (store w)"
proof (induction msgs arbitrary: w)
  case Nil
  then show ?case by simp
next
  case (Cons msg msgs)
  let ?w1 = "world_of (handleRealtimeMessage appendLatestChat (store w) msg w)"
  from handler_store_inv [OF Cons.prems] have d: "distinct (map c_id (store ?w1))"
    and i: "c_id ` set (store ?w1) = c_id ` set (store w)" by blast+
  from Cons.IH [OF d] i show ?case by simp
qed

lemma distinct_count_one:
  "distinct (map c_id st) \<Longrightarrow> C \<in> c_id ` set st \<Longrightarrow> length (filter (\<lambda>x. c_id x = C) st) = 1"
  using distinct_filter_id by fastforce

text \<open>
  Claim C1, as stated, fails. In the scenario of the specification (store \<open>[B, A]\<close>,
  envelope \<^verbatim>\<open>{chatId: "A", text: "hi", ts: 10}\<close>) the handler moves the record of \<open>A\<close>
  to the front, but the record is the one that was loaded: its text and timestamp are
  not those of the envelope, and the store is not the expected
  \<^verbatim>\<open>[A(t=10, "hi"), B(t=5)]\<close>.
\<close>

theorem merge_envelope_content_counterexample:
  "store (world_of (handleRealtimeMessage appendLatestChat [chat_B, chat_A] envelope_hi
      (init [chat_B, chat_A]))) = [chat_A, chat_B] \<and>
   store (world_of (handleRealtimeMessage appendLatestChat [chat_B, chat_A] envelope_hi
      (init [chat_B, chat_A]))) \<noteq> [chat_A\<lparr>lastText := ''hi'', lastTs := 10\<rparr>, chat_B] \<and>
   body envelope_hi = Some ''hi'' \<and> lastText chat_A \<noteq> ''hi'' \<and>
   timestamp envelope_hi = 10 \<and> lastTs chat_A \<noteq> 10"
  by (simp add: handleRealtimeMessage_def handleRealtimeMessage_try_def appendLatestChat_def to_front_def
      chat_A_def chat_B_def envelope_hi_def init_def Let_def)

text \<open>
  Claim C1, amended. For an envelope whose chat identifier is that of a record \<open>c\<close> of the
  store (which holds each identifier once, and to which the handler is bound), the
  handler emits the staleness signal and dispatches one update, with \<open>c\<close> as it was
  loaded; the store then has \<open>c\<close> at the front followed by the other records in their
  order. The records are the same ones as before, none removed and none added, and each
  identifier still occurs once.
\<close>

theorem matching_record_moved_unmerged:
  "distinct (map c_id (store w)) \<Longrightarrow> c \<in> set (store w) \<Longrightarrow> chatId msg = Some (c_id c) \<Longrightarrow>
   handleRealtimeMessage appendLatestChat (store w) msg w =
     Inr (w\<lparr>store := c # remove1 c (store w),
            effects := effects w @ [Dispatch (InvalidateTags [''Chats'']), Dispatch (AppendLatestChat c)],
            awaiting := Suc (awaiting w)\<rparr>) \<and>
   set (c # remove1 c (store w)) = set (store w) \<and>
   length (c # remove1 c (store w)) = length (store w) \<and>
   distinct (map c_id (c # remove1 c (store w)))"
proof -
  assume d: "distinct (map c_id (store w))" and c: "c \<in> set (store w)"
    and m: "chatId msg = Some (c_id c)"
  have 1: "handleRealtimeMessage appendLatestChat (store w) msg w =
     Inr (w\<lparr>store := c # remove1 c (store w),
            effects := effects w @ [Dispatch (InvalidateTags [''Chats'']), Dispatch (AppendLatestChat c)],
            awaiting := Suc (awaiting w)\<rparr>)"
    by (simp add: handler_append matches_distinct [OF d c m] to_front_def distinct_remove_id [OF d c])
  have dd: "distinct (store w)" using d by (simp add: distinct_map)
  have 2: "set (c # remove1 c (store w)) = set (store w)"
    using c dd by auto
  have 3: "length (c # remove1 c (store w)) = length (store w)"
    using c by (simp add: length_remove1) (cases "store w", auto)
  have "distinct (map c_id (to_front c (store w)))"
    using d by (rule distinct_to_front)
  then have 4: "distinct (map c_id (c # remove1 c (store w)))"
    by (simp add: to_front_def distinct_remove_id [OF d c])
  from 1 2 3 4 show ?thesis by blast
qed

text \<open>Claim C1, amended, at the scenario of the specification.\<close>

theorem matching_record_moved_unmerged_witness:
  "distinct (map c_id (store (init [chat_B, chat_A]))) \<and>
   chat_A \<in> set (store (init [chat_B, chat_A])) \<and>
   chatId envelope_hi = Some (c_id chat_A) \<and>
   handleRealtimeMessage appendLatestChat [chat_B, chat_A] envelope_hi (init [chat_B, chat_A]) =
     Inr ((init [chat_B, chat_A])\<lparr>store := [chat_A, chat_B],
            effects := [Dispatch (InvalidateTags [''Chats'']), Dispatch (AppendLatestChat chat_A)],
            awaiting := 1\<rparr>)"
proof -
  have h1: "distinct (map c_id (store (init [chat_B, chat_A])))"
    by (simp add: init_def chat_A_def chat_B_def)
  have h2: "chat_A \<in> set (store (init [chat_B, chat_A]))"
    by (simp add: init_def)
  have h3: "chatId envelope_hi = Some (c_id chat_A)"
    by (simp add: envelope_hi_def chat_A_def)
  have ne: "chat_B \<noteq> chat_A"
    by (simp add: chat_A_def chat_B_def)
  show ?thesis
    using h1 h2 h3 ne matching_record_moved_unmerged [OF h1 h2 h3]
    by (simp add: init_def)
qed

text \<open>
  Claim C8. After the handler has processed an envelope for a chat \<open>C\<close> that is among
  the chats it is bound to, the store is not empty, its first record has the identifier
  \<open>C\<close>, and the records of the other chats are the same and in the same order as
  before.
\<close>

theorem ordering_reestablished:
  "c \<in> set chats \<Longrightarrow> chatId msg = Some (c_id c) \<Longrightarrow>
   store (world_of (handleRealtimeMessage appendLatestChat chats msg w)) \<noteq> [] \<and>
   c_id (hd (store (world_of (handleRealtimeMessage appendLatestChat chats msg w)))) = c_id c \<and>
   filter (\<lambda>x. c_id x \<noteq> c_id c) (store (world_of (handleRealtimeMessage appendLatestChat chats msg w)))
     = filter (\<lambda>x. c_id x \<noteq> c_id c) (store w)"
proof -
  assume a: "c \<in> set chats" and b: "chatId msg = Some (c_id c)"
  let ?cs = "filter (\<lambda>chat. Some (c_id chat) = chatId msg) chats"
  from matches_of [OF a b] have ne: "?cs \<noteq> []" and same: "\<forall>x\<in>set ?cs. c_id x = c_id c"
    by blast+
  have l: "c_id (last ?cs) = c_id c"
    using ne same last_in_set by blast
  have "store (world_of (handleRealtimeMessage appendLatestChat chats msg w)) =
        last ?cs # filter (\<lambda>x. c_id x \<noteq> c_id c) (store w)"
    by (simp add: handler_append fold_to_front_same [OF ne same])
  then show ?thesis using l by simp
qed

text \<open>
  Claim C8, at a store of three chats with \<open>A\<close> last: \<open>A\<close> comes first and \<open>B\<close> stays
  before the third chat.
\<close>

theorem ordering_reestablished_witness:
  "chat_A \<in> set [chat_B, chat_A\<lparr>c_id := ''C''\<rparr>, chat_A] \<and>
   chatId envelope_hi = Some (c_id chat_A) \<and>
   c_id (hd (store (world_of (handleRealtimeMessage appendLatestChat
       [chat_B, chat_A\<lparr>c_id := ''C''\<rparr>, chat_A] envelope_hi
       (init [chat_B, chat_A\<lparr>c_id := ''C''\<rparr>, chat_A]))))) = ''A'' \<and>
   filter (\<lambda>x. c_id x \<noteq> c_id chat_A) (store (world_of (handleRealtimeMessage appendLatestChat
       [chat_B, chat_A\<lparr>c_id := ''C''\<rparr>, chat_A] envelope_hi
       (init [chat_B, chat_A\<lparr>c_id := ''C''\<rparr>, chat_A]))))
     = [chat_B, chat_A\<lparr>c_id := ''C''\<rparr>]"
proof -
  have h1: "chat_A \<in> set [chat_B, chat_A\<lparr>c_id := ''C''\<rparr>, chat_A]"
    by simp
  have h2: "chatId envelope_hi = Some (c_id chat_A)"
    by (simp add: envelope_hi_def chat_A_def)
  show ?thesis
    using h1 h2 ordering_reestablished [OF h1 h2, of "init [chat_B, chat_A\<lparr>c_id := ''C''\<rparr>, chat_A]"]
    by (simp add: init_def chat_A_def chat_B_def)
qed

text \<open>
  Claim C5. When the store holds each identifier once and holds a record of \<open>C\<close>, then
  after any number of envelopes that all reference \<open>C\<close>, each handled by a handler
  bound to the store of that moment, the store holds exactly one record of \<open>C\<close>, and
  still each identifier once.
\<close>

theorem one_record_per_identifier:
  "distinct (map c_id (store w)) \<Longrightarrow> C \<in> c_id ` set (store w) \<Longrightarrow>
   \<forall>msg\<in>set msgs. chatId msg = Some C \<Longrightarrow>
   length (filter (\<lambda>x. c_id x = C) (store (process_all msgs w))) = 1 \<and>
   distinct (map c_id (store (process_all msgs w)))"
proof -
  assume d: "distinct (map c_id (store w))" and c: "C \<in> c_id ` set (store w)"
  from process_all_inv [OF d, of msgs] c
  have "distinct (map c_id (store (process_all msgs w)))"
    and "C \<in> c_id ` set (store (process_all msgs w))"
    by simp_all
  then show ?thesis by (simp add: distinct_count_one)
qed

text \<open>Claim C5, at three envelopes for chat \<open>A\<close> on the store \<open>[B, A]\<close>.\<close>

theorem one_record_per_identifier_witness:
  "distinct (map c_id (store (init [chat_B, chat_A]))) \<and>
   ''A'' \<in> c_id ` set (store (init [chat_B, chat_A])) \<and>
   chatId envelope_hi = Some ''A'' \<and> chatId envelope_no_body = Some ''A'' \<and>
   length (filter (\<lambda>x. c_id x = ''A'')
     (store (process_all [envelope_hi, envelope_no_body, envelope_hi] (init [chat_B, chat_A])))) = 1"
proof -
  have h1: "distinct (map c_id (store (init [chat_B, chat_A])))"
    by (simp add: init_def chat_A_def chat_B_def)
  have h2: "''A'' \<in> c_id ` set (store (init [chat_B, chat_A]))"
    by (simp add: init_def chat_A_def chat_B_def)
  have h3: "\<forall>msg\<in>set [envelope_hi, envelope_no_body, envelope_hi]. chatId msg = Some ''A''"
    by (simp add: envelope_hi_def envelope_no_body_def)
  have h4: "chatId envelope_hi = Some ''A'' \<and> chatId envelope_no_body = Some ''A''"
    by (simp add: envelope_hi_def envelope_no_body_def)
  show ?thesis
    using h1 h2 h4 one_record_per_identifier [OF h1 h2 h3]
    by simp
qed

end
